theory Spec2Isabelle
  imports Main
begin

section \<open>Pointers, failures and the store\<close>

text \<open>
  Pointers are either null or an address. A computation of the C++ program either returns
  a value or fails: by a thrown \<^verbatim>\<open>std::runtime_error\<close>, by undefined behaviour (a null or
  dangling pointer is dereferenced, or a member is called on an object of another class), or
  because the template instantiation it needs is rejected by the compiler.
\<close>

type_synonym addr = nat

datatype ptr = nullptr | Ptr addr

datatype failure =
    runtime_error string
  | undefined_behaviour
  | ill_formed

text \<open>
  The interface classes built on \<^verbatim>\<open>BaseInterface\<close>. The source defines one,
  \<^verbatim>\<open>SideEffectsInterface\<close>; the templates accept any other, named here by its class name.
  A value \<open>I\<close> of this type also stands for the slot type \<^verbatim>\<open>I::Trait\<close> and for the traits
  struct of \<open>I\<close>, which \<open>I\<close> determines.
\<close>

datatype iface = SideEffectsInterface | OtherInterface string

text \<open>
  \<^verbatim>\<open>BaseInterface<..>::Trait\<close>: one pointer \<^verbatim>\<open>vconcept\<close>. The static type of the slot is kept
  beside it, since \<^verbatim>\<open>initialize\<close> and \<^verbatim>\<open>std::get<Trait>\<close> depend on it.
\<close>

record Trait =
  trait_of :: iface
  Trait_vconcept :: ptr

text \<open>
  A concrete class \<^verbatim>\<open>class D : public TraitManager<D, Traits...>\<close> with its member
  \<^verbatim>\<open>bool hasSideEffect()\<close>.

  \<open>base_offset\<close> is the offset of the \<^verbatim>\<open>TraitManager\<close> base subobject inside an object of
  the class: 0 when the base comes first, as in the three classes of the source, and more
  when the class has a virtual member or another base before it.

  The member is not const: it reads the data members of the object (of type \<open>'f\<close>) and may
  change them. Its first argument is the displacement of \<^verbatim>\<open>this\<close> from the start of the
  object while the body runs: 0 for a call on the object. A body that runs at a displaced
  address reads and writes other storage than the data members; the class says what comes
  out of that.
\<close>

record 'f class_decl =
  cname :: string
  Traits :: "iface list"
  base_offset :: nat
  hasSideEffect :: "nat \<Rightarrow> 'f \<Rightarrow> bool \<times> 'f"

text \<open>
  An object \<^verbatim>\<open>Traits::Model<ConcreteOp>\<close> on the free store: the traits struct and the
  class it was instantiated for select its virtual functions.
\<close>

record 'f Model =
  Model_Traits :: iface
  ConcreteOp :: "'f class_decl"

text \<open>
  An instance of a concrete class: its class, the tuple \<^verbatim>\<open>traits\<close> of the
  \<^verbatim>\<open>TraitManager\<close> base and the data members of the derived class. The store finds a live
  instance under the address of its \<^verbatim>\<open>TraitManager\<close> base subobject, which is what a
  \<^verbatim>\<open>TraitManager<Derived, Traits...>*\<close> holds; the object itself starts \<open>base_offset\<close> before.
\<close>

record 'f TraitManager =
  Derived :: "'f class_decl"
  traits :: "Trait list"
  members :: "'f"

record 'f store =
  objects :: "addr \<rightharpoonup> 'f TraitManager"
  heap :: "addr \<rightharpoonup> 'f Model"
  next_free :: addr

definition empty_store :: "'f store" where
  "empty_store = \<lparr>objects = Map.empty, heap = Map.empty, next_free = 0\<rparr>"

text \<open>
  \<^verbatim>\<open>new Model()\<close>: a fresh address, never null; the object is stored there. Addresses are
  handed out in increasing order and are not used again after \<^verbatim>\<open>delete\<close>.
\<close>

definition new_Model :: "'f Model \<Rightarrow> 'f store \<Rightarrow> ptr \<times> 'f store" where
  "new_Model m s =
     (Ptr (next_free s),
      s\<lparr>heap := (heap s)(next_free s \<mapsto> m), next_free := Suc (next_free s)\<rparr>)"

text \<open>\<^verbatim>\<open>delete p\<close>: nothing for a null pointer, undefined for a dangling one.\<close>

definition delete_Model :: "ptr \<Rightarrow> 'f store \<Rightarrow> failure + 'f store" where
  "delete_Model p s =
     (case p of
        nullptr \<Rightarrow> Inr s
      | Ptr a \<Rightarrow>
          (if heap s a \<noteq> None then Inr (s\<lparr>heap := (heap s)(a := None)\<rparr>)
           else Inl undefined_behaviour))"

section \<open>The interface framework\<close>

subsection \<open>The concrete member and the Model that forwards to it\<close>

text \<open>
  The body of \<^verbatim>\<open>ConcreteOp::hasSideEffect\<close> run on the instance whose base subobject is at
  \<open>p\<close>, with \<^verbatim>\<open>this\<close> displaced by \<open>d\<close> from the start of the object. The instance has to be
  a live object of that class.
\<close>

definition run_hasSideEffect ::
  "nat \<Rightarrow> 'f class_decl \<Rightarrow> ptr \<Rightarrow> 'f store \<Rightarrow> failure + (bool \<times> 'f store)" where
  "run_hasSideEffect d C p s =
     (case p of
        nullptr \<Rightarrow> Inl undefined_behaviour
      | Ptr a \<Rightarrow>
          (case objects s a of
             None \<Rightarrow> Inl undefined_behaviour
           | Some obj \<Rightarrow>
               (if Derived obj = C
                then (let (b, f') = hasSideEffect C d (members obj)
                      in Inr (b, s\<lparr>objects := (objects s)(a \<mapsto> obj\<lparr>members := f'\<rparr>)\<rparr>))
                else Inl undefined_behaviour)))"

text \<open>
  The direct call \<^verbatim>\<open>x.hasSideEffect()\<close> on the instance \<open>x\<close> whose base subobject is at \<open>p\<close>:
  \<^verbatim>\<open>this\<close> is the start of \<open>x\<close>.
\<close>

definition call_hasSideEffect ::
  "'f class_decl \<Rightarrow> ptr \<Rightarrow> 'f store \<Rightarrow> failure + (bool \<times> 'f store)" where
  "call_hasSideEffect C p s = run_hasSideEffect 0 C p s"

text \<open>
  \<^verbatim>\<open>SideEffectsInterfaceTraits::Model<ConcreteOp>::hasSideEffect(void* op)\<close>: \<open>op\<close> is the
  address the cast was given, that of the \<^verbatim>\<open>TraitManager\<close> base subobject. The unchecked
  \<^verbatim>\<open>static_cast<ConcreteOp*>(op)\<close> from \<^verbatim>\<open>void*\<close> keeps that address and does not step back to
  the start of the object, so the member runs with \<^verbatim>\<open>this\<close> displaced by the offset of the
  base.
\<close>

definition Model_hasSideEffect ::
  "'f class_decl \<Rightarrow> ptr \<Rightarrow> 'f store \<Rightarrow> failure + (bool \<times> 'f store)" where
  "Model_hasSideEffect C op s =
     (let concreteOp = op in run_hasSideEffect (base_offset C) C concreteOp s)"

text \<open>
  The virtual call \<^verbatim>\<open>c->hasSideEffect(op)\<close> through a
  \<^verbatim>\<open>SideEffectsInterfaceTraits::Concept*\<close>: the object at \<open>c\<close> has to be a live Model of these
  traits, and its override runs.
\<close>

definition Concept_hasSideEffect ::
  "ptr \<Rightarrow> ptr \<Rightarrow> 'f store \<Rightarrow> failure + (bool \<times> 'f store)" where
  "Concept_hasSideEffect c op s =
     (case c of
        nullptr \<Rightarrow> Inl undefined_behaviour
      | Ptr a \<Rightarrow>
          (case heap s a of
             None \<Rightarrow> Inl undefined_behaviour
           | Some m \<Rightarrow>
               (if Model_Traits m = SideEffectsInterface
                then Model_hasSideEffect (ConcreteOp m) op s
                else Inl undefined_behaviour)))"

subsection \<open>Trait slots\<close>

text \<open>\<^verbatim>\<open>Trait::initialize<ConcreteType>()\<close> and \<^verbatim>\<open>Trait::getConcept()\<close>.\<close>

definition Trait_initialize ::
  "'f class_decl \<Rightarrow> Trait \<Rightarrow> 'f store \<Rightarrow> Trait \<times> 'f store" where
  "Trait_initialize ConcreteType t s =
     (let (p, s') = new_Model \<lparr>Model_Traits = trait_of t, ConcreteOp = ConcreteType\<rparr> s
      in (t\<lparr>Trait_vconcept := p\<rparr>, s'))"

definition Trait_getConcept :: "Trait \<Rightarrow> ptr" where
  "Trait_getConcept t = Trait_vconcept t"

text \<open>\<^verbatim>\<open>~Trait() { delete vconcept; }\<close>\<close>

definition Trait_dtor :: "Trait \<Rightarrow> 'f store \<Rightarrow> failure + 'f store" where
  "Trait_dtor t s = delete_Model (Trait_vconcept t) s"

subsection \<open>The interface handle\<close>

text \<open>\<^verbatim>\<open>BaseInterface\<close>: the constructor stores both pointers; two getters.\<close>

record BaseInterface =
  entity :: ptr
  vconcept :: ptr

definition BaseInterface_ctor :: "ptr \<Rightarrow> ptr \<Rightarrow> BaseInterface" where
  "BaseInterface_ctor e c = \<lparr>entity = e, vconcept = c\<rparr>"

definition getImpl :: "BaseInterface \<Rightarrow> ptr" where
  "getImpl h = vconcept h"

definition getEntity :: "BaseInterface \<Rightarrow> ptr" where
  "getEntity h = entity h"

text \<open>\<^verbatim>\<open>SideEffectsInterface::hasSideEffect()\<close>: no check of the Concept pointer.\<close>

definition SideEffectsInterface_hasSideEffect ::
  "BaseInterface \<Rightarrow> 'f store \<Rightarrow> failure + (bool \<times> 'f store)" where
  "SideEffectsInterface_hasSideEffect h s = Concept_hasSideEffect (getImpl h) (getEntity h) s"

subsection \<open>TraitManager\<close>

text \<open>
  \<^verbatim>\<open>initTraits\<close>: the fold over the index sequence calls \<^verbatim>\<open>initialize<Derived>()\<close> on every
  element of the tuple, from the first to the last.
\<close>

fun initTraits :: "'f class_decl \<Rightarrow> Trait list \<Rightarrow> 'f store \<Rightarrow> Trait list \<times> 'f store" where
  "initTraits D [] s = ([], s)"
| "initTraits D (t # ts) s =
     (let (t', s1) = Trait_initialize D t s;
          (ts', s2) = initTraits D ts s1
      in (t' # ts', s2))"

text \<open>
  The constructor \<^verbatim>\<open>TraitManager()\<close>: the tuple member is value-initialised (every
  \<^verbatim>\<open>vconcept\<close> null), then \<^verbatim>\<open>initTraits\<close> runs.
\<close>

definition TraitManager_ctor :: "'f class_decl \<Rightarrow> 'f store \<Rightarrow> Trait list \<times> 'f store" where
  "TraitManager_ctor D s =
     initTraits D (map (\<lambda>I. \<lparr>trait_of = I, Trait_vconcept = nullptr\<rparr>) (Traits D)) s"

text \<open>
  A definition \<^verbatim>\<open>D x;\<close> of an object of class \<open>D\<close> with data members \<open>f\<close>, in storage that
  puts its base subobject at \<open>this\<close>: the base constructor runs, then the object is live.
\<close>

definition construct :: "'f class_decl \<Rightarrow> addr \<Rightarrow> 'f \<Rightarrow> 'f store \<Rightarrow> 'f store" where
  "construct D this f s =
     (let (ts, s') = TraitManager_ctor D s
      in s'\<lparr>objects := (objects s')(this \<mapsto> \<lparr>Derived = D, traits = ts, members = f\<rparr>)\<rparr>)"

text \<open>
  The implicit destructor of an instance destroys the tuple, that is, it runs \<^verbatim>\<open>~Trait()\<close>
  on every slot; then the object is gone.
\<close>

fun destroy_traits :: "Trait list \<Rightarrow> 'f store \<Rightarrow> failure + 'f store" where
  "destroy_traits [] s = Inr s"
| "destroy_traits (t # ts) s =
     (case Trait_dtor t s of Inl e \<Rightarrow> Inl e | Inr s' \<Rightarrow> destroy_traits ts s')"

definition TraitManager_dtor :: "addr \<Rightarrow> 'f store \<Rightarrow> failure + 'f store" where
  "TraitManager_dtor this s =
     (case objects s this of
        None \<Rightarrow> Inl undefined_behaviour
      | Some obj \<Rightarrow>
          (case destroy_traits (traits obj) s of
             Inl e \<Rightarrow> Inl e
           | Inr s' \<Rightarrow> Inr (s'\<lparr>objects := (objects s')(this := None)\<rparr>)))"



text \<open>
  \<^verbatim>\<open>getTraitConcept<Trait>()\<close>: \<^verbatim>\<open>std::get<Trait>(traits)\<close> selects the element of that type
  and is rejected by the compiler unless the type occurs exactly once in the tuple.
\<close>

definition getTraitConcept :: "iface \<Rightarrow> 'f TraitManager \<Rightarrow> failure + ptr" where
  "getTraitConcept I obj =
     (case filter (\<lambda>t. trait_of t = I) (traits obj) of
        [t] \<Rightarrow> Inr (Trait_getConcept t)
      | _ \<Rightarrow> Inl ill_formed)"

subsection \<open>The cast\<close>

text \<open>
  \<^verbatim>\<open>cast_to_interface<Interface>(TraitManager<Derived, Traits...>* animal)\<close>. The condition
  of \<^verbatim>\<open>if constexpr\<close> is a fold of \<^verbatim>\<open>std::is_same_v\<close> over the pack; the first branch
  dereferences \<open>animal\<close>. The store is returned as the call leaves it.
\<close>

definition cast_to_interface ::
  "iface \<Rightarrow> 'f class_decl \<Rightarrow> ptr \<Rightarrow> 'f store \<Rightarrow> (failure + BaseInterface) \<times> 'f store" where
  "cast_to_interface Interface D animal s =
     (if list_ex (\<lambda>T. T = Interface) (Traits D)
      then (case animal of
              nullptr \<Rightarrow> (Inl undefined_behaviour, s)
            | Ptr a \<Rightarrow>
                (case objects s a of
                   None \<Rightarrow> (Inl undefined_behaviour, s)
                 | Some obj \<Rightarrow>
                     (case getTraitConcept Interface obj of
                        Inl e \<Rightarrow> (Inl e, s)
                      | Inr vc \<Rightarrow> (Inr (BaseInterface_ctor animal vc), s))))
      else (Inl (runtime_error ''Op does not implement interface''), s))"

subsection \<open>The three operations of the source\<close>

definition AddOp :: "'f class_decl" where
  "AddOp = \<lparr>cname = ''AddOp'', Traits = [SideEffectsInterface], base_offset = 0,
            hasSideEffect = (\<lambda>d f. (False, f))\<rparr>"

definition SubOp :: "'f class_decl" where
  "SubOp = \<lparr>cname = ''SubOp'', Traits = [SideEffectsInterface], base_offset = 0,
            hasSideEffect = (\<lambda>d f. (False, f))\<rparr>"

definition LoadOp :: "'f class_decl" where
  "LoadOp = \<lparr>cname = ''LoadOp'', Traits = [SideEffectsInterface], base_offset = 0,
             hasSideEffect = (\<lambda>d f. (True, f))\<rparr>"

subsection \<open>How a store evolves\<close>

text \<open>
  One step of a program that uses the framework: an object of some class is defined in
  unused storage, a live object is destroyed, a cast is made, or \<^verbatim>\<open>hasSideEffect\<close> is
  called on an object or through a handle. Steps that end in undefined behaviour have no
  successor. Instances come into being through the constructor of \<^verbatim>\<open>TraitManager\<close> only;
  copying or moving an instance is not part of this relation.
\<close>

inductive step :: "'f store \<Rightarrow> 'f store \<Rightarrow> bool" where
  step_construct: "objects s this = None \<Longrightarrow> step s (construct D this f s)"
| step_destroy: "TraitManager_dtor this s = Inr s' \<Longrightarrow> step s s'"
| step_cast: "cast_to_interface I D p s = (r, s') \<Longrightarrow> step s s'"
| step_call: "call_hasSideEffect C p s = Inr (b, s') \<Longrightarrow> step s s'"
| step_handle: "SideEffectsInterface_hasSideEffect h s = Inr (b, s') \<Longrightarrow> step s s'"

inductive reachable :: "'f store \<Rightarrow> bool" where
  reachable_init: "reachable empty_store"
| reachable_step: "reachable s \<Longrightarrow> step s s' \<Longrightarrow> reachable s'"

text \<open>
  \<open>p\<close> points to a live instance of class \<open>D\<close>, that is, to its \<^verbatim>\<open>TraitManager\<close> base
  subobject, as the argument of the cast does.
\<close>

definition instance_of :: "'f store \<Rightarrow> ptr \<Rightarrow> 'f class_decl \<Rightarrow> bool" where
  "instance_of s p D =
     (case p of
        nullptr \<Rightarrow> False
      | Ptr a \<Rightarrow> (case objects s a of None \<Rightarrow> False | Some obj \<Rightarrow> Derived obj = D))"

text \<open>
  The invariant of reachable stores: every slot of every live object holds the address of a
  live Model of the slot's traits for the object's class, no two slots hold the same
  address, and all addresses in use lie below the allocation mark.
\<close>

definition slot_ok :: "'f store \<Rightarrow> 'f class_decl \<Rightarrow> Trait \<Rightarrow> bool" where
  "slot_ok s D t =
     (\<exists>a. Trait_vconcept t = Ptr a \<and>
          heap s a = Some \<lparr>Model_Traits = trait_of t, ConcreteOp = D\<rparr>)"

definition wf_store :: "'f store \<Rightarrow> bool" where
  "wf_store s =
     ((\<forall>a. a \<in> dom (heap s) \<longrightarrow> a < next_free s) \<and>
      (\<forall>p obj. objects s p = Some obj \<longrightarrow>
         map trait_of (traits obj) = Traits (Derived obj) \<and>
         (\<forall>t \<in> set (traits obj). slot_ok s (Derived obj) t) \<and>
         distinct (map Trait_vconcept (traits obj))) \<and>
      (\<forall>p q o1 o2. objects s p = Some o1 \<longrightarrow> objects s q = Some o2 \<longrightarrow> p \<noteq> q \<longrightarrow>
         set (map Trait_vconcept (traits o1)) \<inter> set (map Trait_vconcept (traits o2)) = {}))"

subsection \<open>The objects of the demonstration\<close>

text \<open>
  The three definitions at the start of \<^verbatim>\<open>main\<close>, \<^verbatim>\<open>AddOp addOp; SubOp subOp; LoadOp loadOp;\<close>,
  in storage 0, 1 and 2; and the same store after one more \<^verbatim>\<open>AddOp\<close> is defined.
\<close>

definition main_store :: "unit store" where
  "main_store = construct LoadOp 2 () (construct SubOp 1 () (construct AddOp 0 () empty_store))"

definition later_store :: "unit store" where
  "later_store = construct AddOp 7 () main_store"

text \<open>
  A class the templates accept as they accept the three above, with a virtual destructor
  and a data member:
  \<^verbatim>\<open>class VirtOp : public TraitManager<VirtOp, SideEffectsInterface::Trait> {
   public: virtual ~VirtOp() = default; bool flag = true;
           bool hasSideEffect() { return flag; } };\<close>
  The pointer to the virtual table comes first in a \<^verbatim>\<open>VirtOp\<close>, the base subobject after it,
  at offset 8. On the object the member returns the flag; run at a displaced address it
  reads storage behind the flag, where it finds 0. \<open>virt_store\<close> holds one \<^verbatim>\<open>VirtOp\<close> that
  starts at address 0, so that its base subobject is at 8.
\<close>

definition VirtOp :: "bool class_decl" where
  "VirtOp = \<lparr>cname = ''VirtOp'', Traits = [SideEffectsInterface], base_offset = 8,
             hasSideEffect = (\<lambda>d flag. if d = 0 then (flag, flag) else (False, flag))\<rparr>"

definition virt_store :: "bool store" where
  "virt_store = construct VirtOp 8 True empty_store"

section \<open>Type erasure by owning wrappers\<close>

text \<open>Standard output is the text written so far.\<close>

type_synonym ostream = string

subsection \<open>Drawable\<close>

datatype ExternalCircle = ExternalCircle

datatype ExternalSquare = ExternalSquare

definition ExternalCircle_render :: "ExternalCircle \<Rightarrow> ostream \<Rightarrow> ostream" where
  "ExternalCircle_render c out = out @ ''Rendering a Circle (External).\<newline>''"

definition ExternalSquare_render :: "ExternalSquare \<Rightarrow> ostream \<Rightarrow> ostream" where
  "ExternalSquare_render sq out = out @ ''Rendering a Square (External).\<newline>''"

text \<open>
  The classes derived from \<^verbatim>\<open>DrawableConcept\<close>: the generic \<^verbatim>\<open>Model<T>\<close> holding an
  \<open>item\<close>, and the two explicit specialisations.
\<close>

datatype 'T DrawableConcept =
    DrawableTraits_Model 'T
  | DrawableTraits_Model_ExternalCircle ExternalCircle
  | DrawableTraits_Model_ExternalSquare ExternalSquare

text \<open>
  The virtual \<^verbatim>\<open>draw()\<close> on a live object; \<open>T_draw\<close> is \<^verbatim>\<open>T::draw\<close> of the generic
  model's item type.
\<close>

fun DrawableConcept_draw ::
  "('T \<Rightarrow> ostream \<Rightarrow> ostream) \<Rightarrow> 'T DrawableConcept \<Rightarrow> ostream \<Rightarrow> ostream" where
  "DrawableConcept_draw T_draw (DrawableTraits_Model item) out = T_draw item out"
| "DrawableConcept_draw T_draw (DrawableTraits_Model_ExternalCircle circle) out =
     ExternalCircle_render circle out"
| "DrawableConcept_draw T_draw (DrawableTraits_Model_ExternalSquare square) out =
     ExternalSquare_render square out"

text \<open>\<^verbatim>\<open>p->draw()\<close> for a \<^verbatim>\<open>std::unique_ptr\<close> \<open>p\<close>, which may be empty.\<close>

definition unique_ptr_draw ::
  "('T \<Rightarrow> ostream \<Rightarrow> ostream) \<Rightarrow> 'T DrawableConcept option \<Rightarrow> ostream \<Rightarrow> failure + ostream" where
  "unique_ptr_draw T_draw p out =
     (case p of
        None \<Rightarrow> Inl undefined_behaviour
      | Some m \<Rightarrow> Inr (DrawableConcept_draw T_draw m out))"

record 'T Drawable =
  Drawable_pImpl :: "'T DrawableConcept option"

text \<open>
  The constructor template \<^verbatim>\<open>Drawable(T item)\<close> at a conforming type and at the two
  external types, where the compiler selects the specialised Model.
\<close>

definition Drawable_ctor :: "'T \<Rightarrow> 'T Drawable" where
  "Drawable_ctor item = \<lparr>Drawable_pImpl = Some (DrawableTraits_Model item)\<rparr>"

definition Drawable_ctor_ExternalCircle :: "ExternalCircle \<Rightarrow> 'T Drawable" where
  "Drawable_ctor_ExternalCircle item =
     \<lparr>Drawable_pImpl = Some (DrawableTraits_Model_ExternalCircle item)\<rparr>"

definition Drawable_ctor_ExternalSquare :: "ExternalSquare \<Rightarrow> 'T Drawable" where
  "Drawable_ctor_ExternalSquare item =
     \<lparr>Drawable_pImpl = Some (DrawableTraits_Model_ExternalSquare item)\<rparr>"

text \<open>\<^verbatim>\<open>Drawable::draw()\<close>: \<^verbatim>\<open>if (pImpl) pImpl->draw();\<close>\<close>

definition Drawable_draw ::
  "('T \<Rightarrow> ostream \<Rightarrow> ostream) \<Rightarrow> 'T Drawable \<Rightarrow> ostream \<Rightarrow> failure + ostream" where
  "Drawable_draw T_draw d out =
     (if Drawable_pImpl d \<noteq> None then unique_ptr_draw T_draw (Drawable_pImpl d) out
      else Inr out)"

subsection \<open>Animal\<close>

datatype 'A AnimalConcept = AnimalModel 'A

fun AnimalConcept_makeNoise ::
  "('A \<Rightarrow> ostream \<Rightarrow> ostream) \<Rightarrow> 'A AnimalConcept \<Rightarrow> ostream \<Rightarrow> ostream" where
  "AnimalConcept_makeNoise A_makeNoise (AnimalModel animal) out = A_makeNoise animal out"

definition unique_ptr_makeNoise ::
  "('A \<Rightarrow> ostream \<Rightarrow> ostream) \<Rightarrow> 'A AnimalConcept option \<Rightarrow> ostream \<Rightarrow> failure + ostream" where
  "unique_ptr_makeNoise A_makeNoise p out =
     (case p of
        None \<Rightarrow> Inl undefined_behaviour
      | Some m \<Rightarrow> Inr (AnimalConcept_makeNoise A_makeNoise m out))"

record 'A Animal =
  Animal_pImpl :: "'A AnimalConcept option"

definition Animal_ctor :: "'A \<Rightarrow> 'A Animal" where
  "Animal_ctor animal = \<lparr>Animal_pImpl = Some (AnimalModel animal)\<rparr>"

text \<open>\<^verbatim>\<open>Animal::makeNoise()\<close>: \<^verbatim>\<open>if (pImpl) { pImpl->makeNoise(); }\<close>\<close>

definition Animal_makeNoise ::
  "('A \<Rightarrow> ostream \<Rightarrow> ostream) \<Rightarrow> 'A Animal \<Rightarrow> ostream \<Rightarrow> failure + ostream" where
  "Animal_makeNoise A_makeNoise a out =
     (if Animal_pImpl a \<noteq> None then unique_ptr_makeNoise A_makeNoise (Animal_pImpl a) out
      else Inr out)"

section \<open>Properties of the store\<close>

subsection \<open>What construction and destruction do to the store\<close>

lemma initTraits_spec:
  "initTraits D ts s = (ts', s') \<Longrightarrow>
     map trait_of ts' = map trait_of ts \<and>
     map Trait_vconcept ts' = map Ptr [next_free s ..< next_free s + length ts] \<and>
     next_free s' = next_free s + length ts \<and>
     objects s' = objects s \<and>
     (\<forall>a. heap s' a =
        (if next_free s \<le> a \<and> a < next_free s + length ts
         then Some \<lparr>Model_Traits = map trait_of ts ! (a - next_free s), ConcreteOp = D\<rparr>
         else heap s a))"
proof (induction ts arbitrary: s ts' s')
  case Nil
  then show ?case by auto
next
  case (Cons t ts)
  obtain t1 s1 where i: "Trait_initialize D t s = (t1, s1)" by (cases "Trait_initialize D t s")
  obtain ts2 s2 where r: "initTraits D ts s1 = (ts2, s2)" by (cases "initTraits D ts s1")
  from Cons.prems i r have e: "ts' = t1 # ts2" "s' = s2" by simp_all
  from i have t1: "trait_of t1 = trait_of t" "Trait_vconcept t1 = Ptr (next_free s)"
    and s1: "next_free s1 = Suc (next_free s)" "objects s1 = objects s"
      "heap s1 = (heap s)(next_free s \<mapsto> \<lparr>Model_Traits = trait_of t, ConcreteOp = D\<rparr>)"
    by (auto simp: Trait_initialize_def new_Model_def)
  from Cons.IH [OF r] s1
  have ih: "map trait_of ts2 = map trait_of ts"
    "map Trait_vconcept ts2 = map Ptr [Suc (next_free s) ..< Suc (next_free s) + length ts]"
    "next_free s2 = Suc (next_free s) + length ts" "objects s2 = objects s"
    and ihh: "\<And>a. heap s2 a =
        (if Suc (next_free s) \<le> a \<and> a < Suc (next_free s) + length ts
         then Some \<lparr>Model_Traits = map trait_of ts ! (a - Suc (next_free s)), ConcreteOp = D\<rparr>
         else heap s1 a)"
    by (simp_all del: upt_Suc)
  have u: "[next_free s ..< next_free s + length (t # ts)] =
      next_free s # [Suc (next_free s) ..< Suc (next_free s) + length ts]"
    by (simp add: upt_conv_Cons del: upt_Suc)
  have c1: "map trait_of ts' = map trait_of (t # ts)" using e t1 ih by simp
  have c2: "map Trait_vconcept ts' = map Ptr [next_free s ..< next_free s + length (t # ts)]"
    unfolding u using e t1 ih by simp
  have c3: "next_free s' = next_free s + length (t # ts)" using e ih by simp
  have c4: "objects s' = objects s" using e ih by simp
  have c5: "heap s' a =
        (if next_free s \<le> a \<and> a < next_free s + length (t # ts)
         then Some \<lparr>Model_Traits = map trait_of (t # ts) ! (a - next_free s), ConcreteOp = D\<rparr>
         else heap s a)" for a
  proof (cases "a = next_free s")
    case True
    then show ?thesis using e ihh [of a] s1 by simp
  next
    case False
    show ?thesis
    proof (cases "next_free s < a")
      case True
      then obtain k where k: "a = Suc (next_free s) + k"
        using less_iff_Suc_add by auto
      show ?thesis using e ihh [of a] s1 unfolding k by simp
    next
      case below: False
      with False have "a < next_free s" by simp
      then show ?thesis using e ihh [of a] s1 by simp
    qed
  qed
  from c1 c2 c3 c4 c5 show ?case by blast
qed

lemma construct_spec:
  assumes "construct D this f s = s'"
  shows "\<exists>ts. objects s' = (objects s)(this \<mapsto> \<lparr>Derived = D, traits = ts, members = f\<rparr>) \<and>
     map trait_of ts = Traits D \<and>
     map Trait_vconcept ts = map Ptr [next_free s ..< next_free s + length (Traits D)] \<and>
     next_free s' = next_free s + length (Traits D) \<and>
     (\<forall>a. heap s' a =
        (if next_free s \<le> a \<and> a < next_free s + length (Traits D)
         then Some \<lparr>Model_Traits = Traits D ! (a - next_free s), ConcreteOp = D\<rparr>
         else heap s a))"
proof -
  let ?ts0 = "map (\<lambda>I. \<lparr>trait_of = I, Trait_vconcept = nullptr\<rparr>) (Traits D)"
  obtain ts s1 where i: "initTraits D ?ts0 s = (ts, s1)" by (cases "initTraits D ?ts0 s")
  have tags: "map trait_of ?ts0 = Traits D" by (simp add: comp_def)
  from initTraits_spec [OF i] tags
  have a: "map trait_of ts = Traits D"
    "map Trait_vconcept ts = map Ptr [next_free s ..< next_free s + length (Traits D)]"
    "next_free s1 = next_free s + length (Traits D)" "objects s1 = objects s"
    and h: "\<And>a. heap s1 a =
        (if next_free s \<le> a \<and> a < next_free s + length (Traits D)
         then Some \<lparr>Model_Traits = Traits D ! (a - next_free s), ConcreteOp = D\<rparr>
         else heap s a)"
    by (simp_all del: map_map)
  from assms i have s': "s' = s1\<lparr>objects := (objects s1)(this \<mapsto> \<lparr>Derived = D, traits = ts, members = f\<rparr>)\<rparr>"
    by (simp add: construct_def TraitManager_ctor_def)
  show ?thesis
    by (rule exI [of _ ts]) (simp add: s' a h)
qed

lemma destroy_traits_spec:
  "destroy_traits ts s = Inr s' \<Longrightarrow>
     objects s' = objects s \<and> next_free s' = next_free s \<and>
     (\<forall>a. heap s' a = (if Ptr a \<in> set (map Trait_vconcept ts) then None else heap s a))"
proof (induction ts arbitrary: s)
  case Nil
  then show ?case by simp
next
  case (Cons t ts)
  from Cons.prems obtain s1 where d: "Trait_dtor t s = Inr s1" and r: "destroy_traits ts s1 = Inr s'"
    by (auto split: sum.splits)
  from d have s1: "objects s1 = objects s" "next_free s1 = next_free s"
    "\<And>a. heap s1 a = (if Ptr a = Trait_vconcept t then None else heap s a)"
    by (auto simp: Trait_dtor_def delete_Model_def split: ptr.splits if_splits)
  from Cons.IH [OF r] s1 show ?case by auto
qed

lemma TraitManager_dtor_spec:
  assumes "TraitManager_dtor this s = Inr s'"
  shows "\<exists>obj. objects s this = Some obj \<and> objects s' = (objects s)(this := None) \<and>
     next_free s' = next_free s \<and>
     (\<forall>a. heap s' a = (if Ptr a \<in> set (map Trait_vconcept (traits obj)) then None else heap s a))"
proof -
  from assms obtain obj s1 where o: "objects s this = Some obj"
    and dt: "destroy_traits (traits obj) s = Inr s1"
    and s': "s' = s1\<lparr>objects := (objects s1)(this := None)\<rparr>"
    by (auto simp: TraitManager_dtor_def split: option.splits sum.splits)
  from destroy_traits_spec [OF dt] o s' show ?thesis by simp
qed

lemma run_hasSideEffect_spec:
  assumes "run_hasSideEffect d C p s = Inr (b, s')"
  shows "\<exists>a obj. p = Ptr a \<and> objects s a = Some obj \<and> Derived obj = C \<and>
           b = fst (hasSideEffect C d (members obj)) \<and>
           s' = s\<lparr>objects := (objects s)(a \<mapsto> obj\<lparr>members := snd (hasSideEffect C d (members obj))\<rparr>)\<rparr>"
  using assms
  by (auto simp: run_hasSideEffect_def split_def Let_def split: ptr.splits option.splits if_splits)

lemma handle_call_is_call:
  assumes "SideEffectsInterface_hasSideEffect h s = Inr r"
  shows "\<exists>a m. vconcept h = Ptr a \<and> heap s a = Some m \<and> Model_Traits m = SideEffectsInterface \<and>
     run_hasSideEffect (base_offset (ConcreteOp m)) (ConcreteOp m) (entity h) s = Inr r"
  using assms
  by (auto simp: SideEffectsInterface_hasSideEffect_def Concept_hasSideEffect_def
      Model_hasSideEffect_def getImpl_def getEntity_def split: ptr.splits option.splits if_splits)

lemma cast_store: "cast_to_interface I D p s = (r, s') \<Longrightarrow> s' = s"
  by (auto simp: cast_to_interface_def split: if_splits ptr.splits option.splits sum.splits)

subsection \<open>The invariant holds in every reachable store\<close>

lemma wf_store_heap_below: "wf_store s \<Longrightarrow> heap s a = Some m \<Longrightarrow> a < next_free s"
  by (auto simp: wf_store_def)

lemma wf_store_tags:
  "wf_store s \<Longrightarrow> objects s p = Some obj \<Longrightarrow> map trait_of (traits obj) = Traits (Derived obj)"
  by (simp add: wf_store_def)

lemma wf_store_slot:
  "wf_store s \<Longrightarrow> objects s p = Some obj \<Longrightarrow> t \<in> set (traits obj) \<Longrightarrow> slot_ok s (Derived obj) t"
  by (simp add: wf_store_def)

lemma wf_store_distinct:
  "wf_store s \<Longrightarrow> objects s p = Some obj \<Longrightarrow> distinct (map Trait_vconcept (traits obj))"
  by (simp add: wf_store_def)

lemma wf_store_disjoint:
  "wf_store s \<Longrightarrow> objects s p = Some o1 \<Longrightarrow> objects s q = Some o2 \<Longrightarrow> p \<noteq> q \<Longrightarrow>
     set (map Trait_vconcept (traits o1)) \<inter> set (map Trait_vconcept (traits o2)) = {}"
  unfolding wf_store_def by blast

lemma wf_store_slot_below:
  assumes "wf_store s" "objects s p = Some obj" "t \<in> set (traits obj)"
  shows "\<exists>a. Trait_vconcept t = Ptr a \<and> a < next_free s \<and> heap s a \<noteq> None"
proof -
  from wf_store_slot [OF assms] obtain a where
    a: "Trait_vconcept t = Ptr a" "heap s a = Some \<lparr>Model_Traits = trait_of t, ConcreteOp = Derived obj\<rparr>"
    by (auto simp: slot_ok_def)
  with wf_store_heap_below [OF assms(1) a(2)] show ?thesis by simp
qed

lemma wf_empty: "wf_store empty_store"
  by (simp add: wf_store_def empty_store_def)

lemma wf_construct:
  assumes wf: "wf_store s" and fresh: "objects s this = None"
  shows "wf_store (construct D this f s)"
proof -
  let ?s' = "construct D this f s"
  let ?n = "next_free s"
  let ?k = "length (Traits D)"
  from construct_spec [OF refl, of D this f s] obtain ts where
    O: "objects ?s' = (objects s)(this \<mapsto> \<lparr>Derived = D, traits = ts, members = f\<rparr>)"
    and T: "map trait_of ts = Traits D"
    and V: "map Trait_vconcept ts = map Ptr [?n ..< ?n + ?k]"
    and N: "next_free ?s' = ?n + ?k"
    and H: "\<And>a. heap ?s' a =
        (if ?n \<le> a \<and> a < ?n + ?k
         then Some \<lparr>Model_Traits = Traits D ! (a - ?n), ConcreteOp = D\<rparr>
         else heap s a)"
    by blast
  have len: "length ts = ?k" using T by (metis length_map)
  have old_heap: "heap ?s' a = heap s a" if "a < ?n" for a
    using that by (simp add: H)
  have keep: "slot_ok ?s' C t" if "slot_ok s C t" for C t
  proof -
    from that obtain a where a: "Trait_vconcept t = Ptr a"
      "heap s a = Some \<lparr>Model_Traits = trait_of t, ConcreteOp = C\<rparr>"
      by (auto simp: slot_ok_def)
    from wf_store_heap_below [OF wf a(2)] have "a < ?n" .
    with a old_heap show ?thesis by (auto simp: slot_ok_def)
  qed
  have new_slot: "slot_ok ?s' D t" if "t \<in> set ts" for t
  proof -
    from that obtain i where i: "i < length ts" "t = ts ! i" by (auto simp: in_set_conv_nth)
    have "Trait_vconcept t = map Trait_vconcept ts ! i" using i by simp
    also have "\<dots> = Ptr (?n + i)" unfolding V using i len by simp
    finally have v: "Trait_vconcept t = Ptr (?n + i)" .
    have "trait_of t = map trait_of ts ! i" using i by simp
    then have tg: "trait_of t = Traits D ! i" by (simp add: T)
    have "heap ?s' (?n + i) = Some \<lparr>Model_Traits = Traits D ! i, ConcreteOp = D\<rparr>"
      using i len by (simp add: H)
    with v tg show ?thesis by (auto simp: slot_ok_def)
  qed
  have new_range: "\<exists>a. x = Ptr a \<and> ?n \<le> a" if "x \<in> set (map Trait_vconcept ts)" for x
    using that unfolding V by auto
  have old_range: "\<exists>a. x = Ptr a \<and> a < ?n"
    if "objects s p = Some obj" "x \<in> set (map Trait_vconcept (traits obj))" for x p obj
    using that wf_store_slot_below [OF wf that(1)] by auto
  have p1: "\<forall>a. a \<in> dom (heap ?s') \<longrightarrow> a < next_free ?s'"
  proof (intro allI impI)
    fix a assume "a \<in> dom (heap ?s')"
    then obtain m where m: "heap ?s' a = Some m" by auto
    show "a < next_free ?s'"
    proof (cases "?n \<le> a \<and> a < ?n + ?k")
      case True then show ?thesis by (simp add: N)
    next
      case False
      with m H [of a] have "heap s a = Some m" by simp
      from wf_store_heap_below [OF wf this] show ?thesis by (simp add: N)
    qed
  qed
  have p2: "map trait_of (traits obj) = Traits (Derived obj) \<and>
         (\<forall>t \<in> set (traits obj). slot_ok ?s' (Derived obj) t) \<and>
         distinct (map Trait_vconcept (traits obj))" if "objects ?s' p = Some obj" for p obj
  proof (cases "p = this")
    case True
    with that O have obj: "obj = \<lparr>Derived = D, traits = ts, members = f\<rparr>" by simp
    have "distinct (map Ptr [?n ..< ?n + ?k])" by (simp add: distinct_map inj_on_def)
    then show ?thesis using obj T new_slot V by simp
  next
    case False
    with that O have o: "objects s p = Some obj" by simp
    show ?thesis
      using wf_store_tags [OF wf o] wf_store_distinct [OF wf o] wf_store_slot [OF wf o] keep
      by blast
  qed
  have p3: "set (map Trait_vconcept (traits o1)) \<inter> set (map Trait_vconcept (traits o2)) = {}"
    if pq: "objects ?s' p = Some o1" "objects ?s' q = Some o2" "p \<noteq> q" for p q o1 o2
  proof -
    consider "p = this" "q \<noteq> this" | "q = this" "p \<noteq> this" | "p \<noteq> this" "q \<noteq> this"
      using pq(3) by blast
    then show ?thesis
    proof cases
      case 1
      with pq O have a: "traits o1 = ts" "objects s q = Some o2" by auto
      show ?thesis using new_range old_range [OF a(2)] unfolding a(1) by fastforce
    next
      case 2
      with pq O have a: "traits o2 = ts" "objects s p = Some o1" by auto
      show ?thesis using new_range old_range [OF a(2)] unfolding a(1) by fastforce
    next
      case 3
      with pq O have "objects s p = Some o1" "objects s q = Some o2" by auto
      from wf_store_disjoint [OF wf this pq(3)] show ?thesis .
    qed
  qed
  show ?thesis unfolding wf_store_def using p1 p2 p3 by blast
qed

lemma wf_destroy:
  assumes wf: "wf_store s" and d: "TraitManager_dtor this s = Inr s'"
  shows "wf_store s'"
proof -
  from d obtain obj s1 where o: "objects s this = Some obj"
    and dt: "destroy_traits (traits obj) s = Inr s1"
    and s': "s' = s1\<lparr>objects := (objects s1)(this := None)\<rparr>"
    by (auto simp: TraitManager_dtor_def split: option.splits sum.splits)
  from destroy_traits_spec [OF dt]
  have O1: "objects s1 = objects s" and N1: "next_free s1 = next_free s"
    and H1: "\<And>a. heap s1 a = (if Ptr a \<in> set (map Trait_vconcept (traits obj)) then None else heap s a)"
    by simp_all
  have O: "objects s' = (objects s)(this := None)" and N: "next_free s' = next_free s"
    and H: "\<And>a. heap s' a = (if Ptr a \<in> set (map Trait_vconcept (traits obj)) then None else heap s a)"
    using s' O1 N1 H1 by simp_all
  have p1: "\<forall>a. a \<in> dom (heap s') \<longrightarrow> a < next_free s'"
  proof (intro allI impI)
    fix a assume "a \<in> dom (heap s')"
    then obtain m where "heap s' a = Some m" by auto
    with H [of a] have "heap s a = Some m" by (simp split: if_splits)
    from wf_store_heap_below [OF wf this] show "a < next_free s'" by (simp add: N)
  qed
  have p2: "map trait_of (traits ob) = Traits (Derived ob) \<and>
         (\<forall>t \<in> set (traits ob). slot_ok s' (Derived ob) t) \<and>
         distinct (map Trait_vconcept (traits ob))" if ob: "objects s' p = Some ob" for p ob
  proof -
    from ob O have ne: "p \<noteq> this" and o2: "objects s p = Some ob" by (auto split: if_splits)
    have "slot_ok s' (Derived ob) t" if t: "t \<in> set (traits ob)" for t
    proof -
      from wf_store_slot [OF wf o2 t] obtain a where a: "Trait_vconcept t = Ptr a"
        "heap s a = Some \<lparr>Model_Traits = trait_of t, ConcreteOp = Derived ob\<rparr>"
        by (auto simp: slot_ok_def)
      have "Ptr a \<in> set (map Trait_vconcept (traits ob))" using t a(1) by force
      with wf_store_disjoint [OF wf o2 o ne]
      have "Ptr a \<notin> set (map Trait_vconcept (traits obj))" by blast
      with a H [of a] show ?thesis by (auto simp: slot_ok_def)
    qed
    with wf_store_tags [OF wf o2] wf_store_distinct [OF wf o2] show ?thesis by blast
  qed
  have p3: "set (map Trait_vconcept (traits o1)) \<inter> set (map Trait_vconcept (traits o2)) = {}"
    if pq: "objects s' p = Some o1" "objects s' q = Some o2" "p \<noteq> q" for p q o1 o2
  proof -
    from pq O have "objects s p = Some o1" "objects s q = Some o2" by (auto split: if_splits)
    from wf_store_disjoint [OF wf this pq(3)] show ?thesis .
  qed
  show ?thesis unfolding wf_store_def using p1 p2 p3 by blast
qed

lemma wf_call:
  assumes wf: "wf_store s" and c: "run_hasSideEffect d C p s = Inr (b, s')"
  shows "wf_store s'"
proof -
  from run_hasSideEffect_spec [OF c] obtain a obj f' where
    o: "objects s a = Some obj" and s': "s' = s\<lparr>objects := (objects s)(a \<mapsto> obj\<lparr>members := f'\<rparr>)\<rparr>"
    by blast
  have same: "\<exists>ob0. objects s p = Some ob0 \<and> traits ob0 = traits ob \<and> Derived ob0 = Derived ob"
    if "objects s' p = Some ob" for p ob
    using that o unfolding s' by (cases "p = a") auto
  have sl: "slot_ok s' D t = slot_ok s D t" for D t
    unfolding s' by (simp add: slot_ok_def)
  have p1: "\<forall>a. a \<in> dom (heap s') \<longrightarrow> a < next_free s'"
    using wf unfolding s' by (auto simp: wf_store_def)
  have p2: "map trait_of (traits ob) = Traits (Derived ob) \<and>
         (\<forall>t \<in> set (traits ob). slot_ok s' (Derived ob) t) \<and>
         distinct (map Trait_vconcept (traits ob))" if ob: "objects s' p = Some ob" for p ob
  proof -
    from same [OF ob] obtain ob0 where ob0: "objects s p = Some ob0" "traits ob0 = traits ob"
      "Derived ob0 = Derived ob" by blast
    from wf_store_tags [OF wf ob0(1)] wf_store_distinct [OF wf ob0(1)] wf_store_slot [OF wf ob0(1)]
    show ?thesis unfolding sl ob0(2,3) by blast
  qed
  have p3: "set (map Trait_vconcept (traits o1)) \<inter> set (map Trait_vconcept (traits o2)) = {}"
    if pq: "objects s' p = Some o1" "objects s' q = Some o2" "p \<noteq> q" for p q o1 o2
  proof -
    from same [OF pq(1)] obtain x1 where x1: "objects s p = Some x1" "traits x1 = traits o1" by blast
    from same [OF pq(2)] obtain x2 where x2: "objects s q = Some x2" "traits x2 = traits o2" by blast
    from wf_store_disjoint [OF wf x1(1) x2(1) pq(3)] show ?thesis unfolding x1(2) x2(2) .
  qed
  show ?thesis unfolding wf_store_def using p1 p2 p3 by blast
qed

lemma wf_step: "step s s' \<Longrightarrow> wf_store s \<Longrightarrow> wf_store s'"
proof (induction rule: step.induct)
  case (step_construct s this D f)
  then show ?case by (simp add: wf_construct)
next
  case (step_destroy this s s')
  then show ?case by (blast intro: wf_destroy)
next
  case (step_cast I D p s r s')
  from cast_store [OF step_cast(1)] step_cast(2) show ?case by simp
next
  case (step_call C p s b s')
  then show ?case unfolding call_hasSideEffect_def by (blast intro: wf_call)
next
  case (step_handle h s b s')
  from handle_call_is_call [OF step_handle(1)] step_handle(2) show ?case
    by (blast intro: wf_call)
qed

lemma reachable_wf: "reachable s \<Longrightarrow> wf_store s"
  by (induction rule: reachable.induct) (auto intro: wf_empty wf_step)

subsection \<open>The cast and the forwarding call\<close>

lemma count_list_map_filter:
  "count_list (map f xs) y = length (filter (\<lambda>t. f t = y) xs)"
  by (induction xs) auto

lemma filter_single:
  assumes "count_list (map f xs) y = 1"
  shows "\<exists>x. filter (\<lambda>t. f t = y) xs = [x] \<and> x \<in> set xs \<and> f x = y"
proof -
  from assms have "length (filter (\<lambda>t. f t = y) xs) = 1" by (simp add: count_list_map_filter)
  then obtain x where x: "filter (\<lambda>t. f t = y) xs = [x]"
    by (cases "filter (\<lambda>t. f t = y) xs") auto
  have "x \<in> set (filter (\<lambda>t. f t = y) xs)" unfolding x by simp
  then have "x \<in> set xs \<and> f x = y" by simp
  with x show ?thesis by blast
qed

lemma instance_ofD:
  "instance_of s p D \<Longrightarrow> \<exists>a obj. p = Ptr a \<and> objects s a = Some obj \<and> Derived obj = D"
  by (auto simp: instance_of_def split: ptr.splits option.splits)

lemma getTraitConcept_Inr_iff:
  "(\<exists>v. getTraitConcept I obj = Inr v) \<longleftrightarrow> count_list (map trait_of (traits obj)) I = 1"
proof -
  have "(\<exists>v. getTraitConcept I obj = Inr v) \<longleftrightarrow> length (filter (\<lambda>t. trait_of t = I) (traits obj)) = 1"
    by (cases "filter (\<lambda>t. trait_of t = I) (traits obj)" rule: list.exhaust [case_names Nil Cons])
      (auto simp: getTraitConcept_def split: list.splits)
  then show ?thesis by (simp add: count_list_map_filter)
qed

lemma cast_ok:
  assumes wf: "wf_store s" and inst: "instance_of s p D" and once: "count_list (Traits D) I = 1"
  shows "\<exists>a. cast_to_interface I D p s = (Inr \<lparr>entity = p, vconcept = Ptr a\<rparr>, s) \<and>
     heap s a = Some \<lparr>Model_Traits = I, ConcreteOp = D\<rparr>"
proof -
  from instance_ofD [OF inst] obtain x obj where
    p: "p = Ptr x" and o: "objects s x = Some obj" and d: "Derived obj = D" by blast
  from once have mem: "I \<in> set (Traits D)"
    by (metis count_list_0_iff zero_neq_one)
  from wf_store_tags [OF wf o] d once have "count_list (map trait_of (traits obj)) I = 1" by simp
  from filter_single [OF this] obtain t where
    t: "filter (\<lambda>t. trait_of t = I) (traits obj) = [t]" "t \<in> set (traits obj)" "trait_of t = I"
    by blast
  from wf_store_slot [OF wf o t(2)] d t(3) obtain a where
    a: "Trait_vconcept t = Ptr a" "heap s a = Some \<lparr>Model_Traits = I, ConcreteOp = D\<rparr>"
    by (auto simp: slot_ok_def)
  have "cast_to_interface I D p s = (Inr \<lparr>entity = p, vconcept = Ptr a\<rparr>, s)"
    using mem p o t(1) a(1)
    by (simp add: cast_to_interface_def list_ex_iff getTraitConcept_def Trait_getConcept_def
        BaseInterface_ctor_def)
  with a(2) show ?thesis by blast
qed

lemma cast_success_iff:
  assumes wf: "wf_store s" and inst: "instance_of s p D"
  shows "(\<exists>h. fst (cast_to_interface I D p s) = Inr h) \<longleftrightarrow> count_list (Traits D) I = 1"
proof
  assume "count_list (Traits D) I = 1"
  from cast_ok [OF wf inst this] show "\<exists>h. fst (cast_to_interface I D p s) = Inr h" by auto
next
  assume ok: "\<exists>h. fst (cast_to_interface I D p s) = Inr h"
  from instance_ofD [OF inst] obtain x obj where
    p: "p = Ptr x" and o: "objects s x = Some obj" and d: "Derived obj = D" by blast
  from ok p o have "\<exists>v. getTraitConcept I obj = Inr v"
    by (auto simp: cast_to_interface_def split: if_splits sum.splits)
  then have "count_list (map trait_of (traits obj)) I = 1" by (simp add: getTraitConcept_Inr_iff)
  with wf_store_tags [OF wf o] d show "count_list (Traits D) I = 1" by simp
qed

lemma cast_rejected:
  "I \<notin> set (Traits D) \<Longrightarrow>
     cast_to_interface I D p s = (Inl (runtime_error ''Op does not implement interface''), s)"
  by (simp add: cast_to_interface_def list_ex_iff)

lemma cast_throws_only_when_absent:
  assumes "fst (cast_to_interface I D p s) = Inl (runtime_error msg)"
  shows "msg = ''Op does not implement interface'' \<and> I \<notin> set (Traits D)"
  using assms
  by (auto simp: cast_to_interface_def list_ex_iff getTraitConcept_def
      split: if_splits ptr.splits option.splits sum.splits list.splits)

lemma handle_forwards:
  assumes "heap s a = Some \<lparr>Model_Traits = SideEffectsInterface, ConcreteOp = D\<rparr>"
  shows "SideEffectsInterface_hasSideEffect \<lparr>entity = p, vconcept = Ptr a\<rparr> s =
     run_hasSideEffect (base_offset D) D p s"
  using assms
  by (simp add: SideEffectsInterface_hasSideEffect_def getImpl_def getEntity_def
      Concept_hasSideEffect_def Model_hasSideEffect_def)

lemma call_constant:
  assumes "instance_of s p D" "hasSideEffect D = (\<lambda>d f. (b, f))"
  shows "run_hasSideEffect d D p s = Inr (b, s)"
proof -
  from instance_ofD [OF assms(1)] obtain x obj where
    p: "p = Ptr x" and o: "objects s x = Some obj" and d: "Derived obj = D" by blast
  have "(objects s)(x \<mapsto> obj) = objects s" using o by (simp add: fun_upd_idem)
  then show ?thesis using p o d assms(2) by (simp add: run_hasSideEffect_def)
qed

lemma call_returns:
  assumes "instance_of s p D"
  shows "\<exists>r. run_hasSideEffect d D p s = Inr r"
proof -
  from instance_ofD [OF assms] obtain x obj where
    "p = Ptr x" "objects s x = Some obj" "Derived obj = D" by blast
  then show ?thesis by (simp add: run_hasSideEffect_def split_def Let_def)
qed

lemma cast_forwards_to_member_at_base:
  assumes "reachable s" and "instance_of s p D"
    and "count_list (Traits D) SideEffectsInterface = 1"
  shows "\<exists>h. cast_to_interface SideEffectsInterface D p s = (Inr h, s) \<and>
           SideEffectsInterface_hasSideEffect h s = run_hasSideEffect (base_offset D) D p s \<and>
           (base_offset D = 0 \<longrightarrow>
              SideEffectsInterface_hasSideEffect h s = call_hasSideEffect D p s)"
proof -
  from cast_ok [OF reachable_wf [OF assms(1)] assms(2,3)] obtain a where
    a: "cast_to_interface SideEffectsInterface D p s = (Inr \<lparr>entity = p, vconcept = Ptr a\<rparr>, s)"
    "heap s a = Some \<lparr>Model_Traits = SideEffectsInterface, ConcreteOp = D\<rparr>" by blast
  show ?thesis using a handle_forwards [OF a(2), of p] by (auto simp: call_hasSideEffect_def)
qed

subsection \<open>The stores of the demonstration\<close>

lemma reachable_main_store: "reachable main_store"
  unfolding main_store_def
  by (intro reachable_step [OF _ step_construct] reachable_init)
    (simp_all add: construct_def TraitManager_ctor_def empty_store_def Trait_initialize_def
      new_Model_def AddOp_def SubOp_def LoadOp_def)

lemma objects_main_store:
  "objects main_store 0 = Some \<lparr>Derived = AddOp,
      traits = [\<lparr>trait_of = SideEffectsInterface, Trait_vconcept = Ptr 0\<rparr>], members = ()\<rparr>"
  "objects main_store 1 = Some \<lparr>Derived = SubOp,
      traits = [\<lparr>trait_of = SideEffectsInterface, Trait_vconcept = Ptr 1\<rparr>], members = ()\<rparr>"
  "objects main_store 2 = Some \<lparr>Derived = LoadOp,
      traits = [\<lparr>trait_of = SideEffectsInterface, Trait_vconcept = Ptr 2\<rparr>], members = ()\<rparr>"
  by (simp_all add: main_store_def construct_def TraitManager_ctor_def empty_store_def
      Trait_initialize_def new_Model_def AddOp_def SubOp_def LoadOp_def)


lemma instance_main_store:
  "instance_of main_store (Ptr 0) AddOp"
  "instance_of main_store (Ptr 1) SubOp"
  "instance_of main_store (Ptr 2) LoadOp"
  by (simp_all add: instance_of_def objects_main_store del: One_nat_def)


lemma objects_main_store_unused: "objects main_store 7 = None"
  by (simp add: main_store_def construct_def TraitManager_ctor_def empty_store_def
      Trait_initialize_def new_Model_def AddOp_def SubOp_def LoadOp_def)

lemma step_main_later: "step main_store later_store"
  unfolding later_store_def by (rule step_construct) (rule objects_main_store_unused)

lemma reachable_later_store: "reachable later_store"
  unfolding later_store_def
  by (rule reachable_step [OF reachable_main_store step_construct])
    (simp add: main_store_def construct_def TraitManager_ctor_def empty_store_def
      Trait_initialize_def new_Model_def AddOp_def SubOp_def LoadOp_def)

lemma instance_later_store: "instance_of later_store (Ptr 7) AddOp"
  by (simp add: instance_of_def later_store_def construct_def split_def Let_def)

lemma objects_later_store:
  "objects later_store 0 = Some \<lparr>Derived = AddOp,
      traits = [\<lparr>trait_of = SideEffectsInterface, Trait_vconcept = Ptr 0\<rparr>], members = ()\<rparr>"
  by (simp add: later_store_def main_store_def construct_def TraitManager_ctor_def empty_store_def
      Trait_initialize_def new_Model_def AddOp_def SubOp_def LoadOp_def)

lemma cast_main_store_LoadOp:
  "cast_to_interface SideEffectsInterface LoadOp (Ptr 2) main_store =
     (Inr \<lparr>entity = Ptr 2, vconcept = Ptr 2\<rparr>, main_store)"
  by (simp add: cast_to_interface_def objects_main_store getTraitConcept_def Trait_getConcept_def
      BaseInterface_ctor_def LoadOp_def)

section \<open>The claims\<close>

subsection \<open>Casting to a declared interface\<close>

text \<open>
  Claim C1: for every class that declares the interface, the cast returns a handle, and a
  call through the handle gives what the call of the member on the instance gives. The
  code does not keep this for a class whose \<^verbatim>\<open>TraitManager\<close> base subobject is not at the
  start of the object. For the live \<^verbatim>\<open>VirtOp\<close> of \<open>virt_store\<close>, whose flag is true, the cast
  returns a handle, the call on the instance returns true, and the call through the handle,
  which runs the member at the address of the base subobject, returns false.
\<close>

theorem handle_call_runs_at_base_address:
  "reachable virt_store \<and> instance_of virt_store (Ptr 8) VirtOp \<and>
   count_list (Traits VirtOp) SideEffectsInterface = 1 \<and>
   cast_to_interface SideEffectsInterface VirtOp (Ptr 8) virt_store =
     (Inr \<lparr>entity = Ptr 8, vconcept = Ptr 0\<rparr>, virt_store) \<and>
   call_hasSideEffect VirtOp (Ptr 8) virt_store = Inr (True, virt_store) \<and>
   SideEffectsInterface_hasSideEffect \<lparr>entity = Ptr 8, vconcept = Ptr 0\<rparr> virt_store =
     Inr (False, virt_store)"
proof -
  have r: "reachable virt_store"
    unfolding virt_store_def
    by (rule reachable_step [OF reachable_init step_construct]) (simp add: empty_store_def)
  have rest: "instance_of virt_store (Ptr 8) VirtOp"
    "count_list (Traits VirtOp) SideEffectsInterface = 1"
    "cast_to_interface SideEffectsInterface VirtOp (Ptr 8) virt_store =
       (Inr \<lparr>entity = Ptr 8, vconcept = Ptr 0\<rparr>, virt_store)"
    "call_hasSideEffect VirtOp (Ptr 8) virt_store = Inr (True, virt_store)"
    "SideEffectsInterface_hasSideEffect \<lparr>entity = Ptr 8, vconcept = Ptr 0\<rparr> virt_store =
       Inr (False, virt_store)"
    by (simp_all add: virt_store_def VirtOp_def construct_def TraitManager_ctor_def
        empty_store_def Trait_initialize_def new_Model_def instance_of_def
        cast_to_interface_def getTraitConcept_def Trait_getConcept_def BaseInterface_ctor_def
        call_hasSideEffect_def run_hasSideEffect_def SideEffectsInterface_hasSideEffect_def
        Concept_hasSideEffect_def Model_hasSideEffect_def getImpl_def getEntity_def)
  from r rest show ?thesis by (intro conjI)
qed

subsection \<open>Casting to an interface that is not declared\<close>

text \<open>
  Claim C2. If the class \<open>D\<close> does not declare the interface \<open>I\<close>, the cast throws the
  \<^verbatim>\<open>std::runtime_error\<close> of the else branch, whatever the pointer and the store are, and the
  store (all objects with their slots, and all Models) is returned unchanged.
\<close>

theorem cast_undeclared_throws:
  assumes "I \<notin> set (Traits D)"
  shows "cast_to_interface I D p s = (Inl (runtime_error ''Op does not implement interface''), s)"
  using assms by (rule cast_rejected)

theorem cast_undeclared_throws_witness:
  "OtherInterface ''LoopLikeInterface'' \<notin> set (Traits (AddOp :: unit class_decl)) \<and>
   cast_to_interface (OtherInterface ''LoopLikeInterface'') AddOp (Ptr 0) main_store =
     (Inl (runtime_error ''Op does not implement interface''), main_store)"
proof -
  have n: "OtherInterface ''LoopLikeInterface'' \<notin> set (Traits (AddOp :: unit class_decl))"
    by (simp add: AddOp_def)
  from cast_undeclared_throws [OF n] n show ?thesis by simp
qed

text \<open>
  Claim C3, as stated: the error raised by a rejected cast reports which class and which
  interface were requested. It does not: a cast of an \<^verbatim>\<open>AddOp\<close> to one absent interface and a
  cast of a \<^verbatim>\<open>LoadOp\<close> to another raise the same error, although the classes and the interfaces
  differ.
\<close>

theorem cast_error_names_request_counterexample:
  "fst (cast_to_interface (OtherInterface ''LoopLikeInterface'') AddOp (Ptr 0) main_store) =
     Inl (runtime_error ''Op does not implement interface'') \<and>
   fst (cast_to_interface (OtherInterface ''MemoryInterface'') LoadOp (Ptr 2) main_store) =
     Inl (runtime_error ''Op does not implement interface'') \<and>
   cname (AddOp :: unit class_decl) \<noteq> cname (LoadOp :: unit class_decl) \<and>
   OtherInterface ''LoopLikeInterface'' \<noteq> OtherInterface ''MemoryInterface''"
  by (simp add: cast_to_interface_def AddOp_def LoadOp_def)

text \<open>
  Claim C3, amended. A rejected cast throws a \<^verbatim>\<open>std::runtime_error\<close> whose message is the
  fixed text \<^verbatim>\<open>Op does not implement interface\<close>, the same for every class and every interface;
  and the cast throws in no other case.
\<close>

theorem cast_error_is_fixed_message:
  "(I \<notin> set (Traits D) \<longrightarrow>
      fst (cast_to_interface I D p s) = Inl (runtime_error ''Op does not implement interface'')) \<and>
   (fst (cast_to_interface I D p s) = Inl (runtime_error msg) \<longrightarrow>
      msg = ''Op does not implement interface'' \<and> I \<notin> set (Traits D))"
proof (rule conjI)
  show "I \<notin> set (Traits D) \<longrightarrow>
      fst (cast_to_interface I D p s) = Inl (runtime_error ''Op does not implement interface'')"
    by (simp add: cast_rejected)
  show "fst (cast_to_interface I D p s) = Inl (runtime_error msg) \<longrightarrow>
      msg = ''Op does not implement interface'' \<and> I \<notin> set (Traits D)"
    by (rule impI) (rule cast_throws_only_when_absent)
qed

theorem cast_error_is_fixed_message_witness:
  "OtherInterface ''MemoryInterface'' \<notin> set (Traits (LoadOp :: unit class_decl)) \<and>
   fst (cast_to_interface (OtherInterface ''MemoryInterface'') LoadOp (Ptr 2) main_store) =
     Inl (runtime_error ''Op does not implement interface'')"
  using cast_error_is_fixed_message
    [of "OtherInterface ''MemoryInterface''" "LoadOp :: unit class_decl" "Ptr 2" main_store
      "''Op does not implement interface''"]
  by (simp add: LoadOp_def)

subsection \<open>The two scenarios\<close>

text \<open>
  Claim C4. For every live \<^verbatim>\<open>AddOp\<close> instance \<open>a\<close> and every live \<^verbatim>\<open>LoadOp\<close> instance \<open>l\<close>
  of a reachable store, the cast to the side-effect interface returns a handle, and
  \<^verbatim>\<open>hasSideEffect()\<close> on it returns false for \<open>a\<close> and true for \<open>l\<close>.
\<close>

theorem AddOp_LoadOp_scenarios:
  assumes "reachable s" and "instance_of s a AddOp" and "instance_of s l LoadOp"
  shows "\<exists>ha hl. cast_to_interface SideEffectsInterface AddOp a s = (Inr ha, s) \<and>
           SideEffectsInterface_hasSideEffect ha s = Inr (False, s) \<and>
           cast_to_interface SideEffectsInterface LoadOp l s = (Inr hl, s) \<and>
           SideEffectsInterface_hasSideEffect hl s = Inr (True, s)"
proof -
  note wf = reachable_wf [OF assms(1)]
  have ca: "count_list (Traits (AddOp :: 'a class_decl)) SideEffectsInterface = 1"
    and cl: "count_list (Traits (LoadOp :: 'a class_decl)) SideEffectsInterface = 1"
    by (simp_all add: AddOp_def LoadOp_def)
  from cast_ok [OF wf assms(2) ca] obtain x where
    x: "cast_to_interface SideEffectsInterface AddOp a s = (Inr \<lparr>entity = a, vconcept = Ptr x\<rparr>, s)"
    "heap s x = Some \<lparr>Model_Traits = SideEffectsInterface, ConcreteOp = AddOp\<rparr>" by blast
  from cast_ok [OF wf assms(3) cl] obtain y where
    y: "cast_to_interface SideEffectsInterface LoadOp l s = (Inr \<lparr>entity = l, vconcept = Ptr y\<rparr>, s)"
    "heap s y = Some \<lparr>Model_Traits = SideEffectsInterface, ConcreteOp = LoadOp\<rparr>" by blast
  have "run_hasSideEffect (base_offset (AddOp :: 'a class_decl)) AddOp a s = Inr (False, s)"
    by (rule call_constant [OF assms(2)]) (simp add: AddOp_def)
  moreover
  have "run_hasSideEffect (base_offset (LoadOp :: 'a class_decl)) LoadOp l s = Inr (True, s)"
    by (rule call_constant [OF assms(3)]) (simp add: LoadOp_def)
  ultimately show ?thesis
    using x y handle_forwards [OF x(2), of a] handle_forwards [OF y(2), of l] by simp
qed

theorem AddOp_LoadOp_scenarios_witness:
  "reachable main_store \<and> instance_of main_store (Ptr 0) AddOp \<and>
   instance_of main_store (Ptr 2) LoadOp \<and>
   (\<exists>ha hl. cast_to_interface SideEffectsInterface AddOp (Ptr 0) main_store = (Inr ha, main_store) \<and>
           SideEffectsInterface_hasSideEffect ha main_store = Inr (False, main_store) \<and>
           cast_to_interface SideEffectsInterface LoadOp (Ptr 2) main_store = (Inr hl, main_store) \<and>
           SideEffectsInterface_hasSideEffect hl main_store = Inr (True, main_store))"
  using AddOp_LoadOp_scenarios [OF reachable_main_store instance_main_store(1) instance_main_store(3)]
    reachable_main_store instance_main_store(1) instance_main_store(3)
  by (intro conjI)

subsection \<open>Adapters for the external types\<close>

text \<open>
  Claim C5. For an \<^verbatim>\<open>ExternalCircle\<close> and an \<^verbatim>\<open>ExternalSquare\<close> held by their specialised
  Model, \<^verbatim>\<open>draw()\<close> through the Concept writes exactly what \<^verbatim>\<open>render()\<close> on the held object
  writes; so does \<^verbatim>\<open>draw()\<close> on the wrapper constructed from the object.
\<close>

theorem specialised_model_draw_is_render:
  "DrawableConcept_draw T_draw (DrawableTraits_Model_ExternalCircle c) out =
     ExternalCircle_render c out \<and>
   DrawableConcept_draw T_draw (DrawableTraits_Model_ExternalSquare sq) out =
     ExternalSquare_render sq out \<and>
   Drawable_draw T_draw (Drawable_ctor_ExternalCircle c) out = Inr (ExternalCircle_render c out) \<and>
   Drawable_draw T_draw (Drawable_ctor_ExternalSquare sq) out = Inr (ExternalSquare_render sq out)"
  by (simp add: Drawable_draw_def unique_ptr_draw_def Drawable_ctor_ExternalCircle_def
      Drawable_ctor_ExternalSquare_def)

subsection \<open>Casting twice\<close>

text \<open>
  Claim C6. Two casts in a row of the same live instance to the same declared interface
  both return a handle. Each of the two handles holds the pointer \<open>p\<close> that was cast as its
  entity, and as its Concept the pointer found in the instance's slot for the interface,
  which points to the live Model of the instance's class. So every call through one gives,
  in any store, what it gives through the other; and \<^verbatim>\<open>hasSideEffect()\<close> through either
  returns, with the same result.
\<close>

theorem two_casts_same_handle:
  assumes "reachable s" and "instance_of s p D" and "count_list (Traits D) I = 1"
  shows "\<exists>h1 s1 h2 s2 x obj t a.
           cast_to_interface I D p s = (Inr h1, s1) \<and>
           cast_to_interface I D p s1 = (Inr h2, s2) \<and>
           entity h1 = p \<and> entity h2 = p \<and>
           p = Ptr x \<and> objects s2 x = Some obj \<and>
           filter (\<lambda>t. trait_of t = I) (traits obj) = [t] \<and>
           vconcept h1 = Trait_vconcept t \<and> vconcept h2 = Trait_vconcept t \<and>
           Trait_vconcept t = Ptr a \<and>
           heap s2 a = Some \<lparr>Model_Traits = I, ConcreteOp = D\<rparr> \<and>
           (\<forall>st :: 'a store. SideEffectsInterface_hasSideEffect h1 st =
                 SideEffectsInterface_hasSideEffect h2 st) \<and>
           (I = SideEffectsInterface \<longrightarrow>
              (\<exists>r. SideEffectsInterface_hasSideEffect h1 s2 = Inr r \<and>
                   SideEffectsInterface_hasSideEffect h2 s2 = Inr r))"
proof -
  note wf = reachable_wf [OF assms(1)]
  from instance_ofD [OF assms(2)] obtain x obj where
    p: "p = Ptr x" and o: "objects s x = Some obj" and d: "Derived obj = D" by blast
  from wf_store_tags [OF wf o] d assms(3)
  have "count_list (map trait_of (traits obj)) I = 1" by simp
  from filter_single [OF this] obtain t where
    t: "filter (\<lambda>t. trait_of t = I) (traits obj) = [t]" "t \<in> set (traits obj)" "trait_of t = I"
    by blast
  from wf_store_slot [OF wf o t(2)] d t(3) obtain a where
    a: "Trait_vconcept t = Ptr a" "heap s a = Some \<lparr>Model_Traits = I, ConcreteOp = D\<rparr>"
    by (auto simp: slot_ok_def)
  let ?h = "\<lparr>entity = p, vconcept = Ptr a\<rparr>"
  from assms(3) have mem: "I \<in> set (Traits D)"
    by (metis count_list_0_iff zero_neq_one)
  have c: "cast_to_interface I D p s = (Inr ?h, s)"
    using mem p o t(1) a(1)
    by (simp add: cast_to_interface_def list_ex_iff getTraitConcept_def Trait_getConcept_def
        BaseInterface_ctor_def)
  have ret: "\<exists>r. SideEffectsInterface_hasSideEffect ?h s = Inr r" if "I = SideEffectsInterface"
    using handle_forwards [of s a D p] a(2) that call_returns [OF assms(2), of "base_offset D"]
    by simp
  have last: "I = SideEffectsInterface \<longrightarrow>
      (\<exists>r. SideEffectsInterface_hasSideEffect ?h s = Inr r \<and>
           SideEffectsInterface_hasSideEffect ?h s = Inr r)"
    using ret by blast
  show ?thesis
    apply (rule exI [of _ ?h], rule exI [of _ s], rule exI [of _ ?h], rule exI [of _ s])
    apply (rule exI [of _ x], rule exI [of _ obj], rule exI [of _ t], rule exI [of _ a])
    using c p o t(1) a last by simp
qed

theorem two_casts_same_handle_witness:
  "reachable main_store \<and> instance_of main_store (Ptr 1) SubOp \<and>
   count_list (Traits (SubOp :: unit class_decl)) SideEffectsInterface = 1 \<and>
   (\<exists>h1 s1 h2 s2 x obj t a.
           cast_to_interface SideEffectsInterface SubOp (Ptr 1) main_store = (Inr h1, s1) \<and>
           cast_to_interface SideEffectsInterface SubOp (Ptr 1) s1 = (Inr h2, s2) \<and>
           entity h1 = Ptr 1 \<and> entity h2 = Ptr 1 \<and>
           Ptr 1 = Ptr x \<and> objects s2 x = Some obj \<and>
           filter (\<lambda>t. trait_of t = SideEffectsInterface) (traits obj) = [t] \<and>
           vconcept h1 = Trait_vconcept t \<and> vconcept h2 = Trait_vconcept t \<and>
           Trait_vconcept t = Ptr a \<and>
           heap s2 a = Some \<lparr>Model_Traits = SideEffectsInterface, ConcreteOp = SubOp\<rparr> \<and>
           (\<forall>st :: unit store. SideEffectsInterface_hasSideEffect h1 st =
                 SideEffectsInterface_hasSideEffect h2 st) \<and>
           (\<exists>r. SideEffectsInterface_hasSideEffect h1 s2 = Inr r \<and>
                SideEffectsInterface_hasSideEffect h2 s2 = Inr r))"
proof -
  have c: "count_list (Traits (SubOp :: unit class_decl)) SideEffectsInterface = 1"
    by (simp add: SubOp_def)
  from two_casts_same_handle [OF reachable_main_store instance_main_store(2) c]
  have "\<exists>h1 s1 h2 s2 x obj t a.
           cast_to_interface SideEffectsInterface SubOp (Ptr 1) main_store = (Inr h1, s1) \<and>
           cast_to_interface SideEffectsInterface SubOp (Ptr 1) s1 = (Inr h2, s2) \<and>
           entity h1 = Ptr 1 \<and> entity h2 = Ptr 1 \<and>
           Ptr 1 = Ptr x \<and> objects s2 x = Some obj \<and>
           filter (\<lambda>t. trait_of t = SideEffectsInterface) (traits obj) = [t] \<and>
           vconcept h1 = Trait_vconcept t \<and> vconcept h2 = Trait_vconcept t \<and>
           Trait_vconcept t = Ptr a \<and>
           heap s2 a = Some \<lparr>Model_Traits = SideEffectsInterface, ConcreteOp = SubOp\<rparr> \<and>
           (\<forall>st :: unit store. SideEffectsInterface_hasSideEffect h1 st =
                 SideEffectsInterface_hasSideEffect h2 st) \<and>
           (\<exists>r. SideEffectsInterface_hasSideEffect h1 s2 = Inr r \<and>
                SideEffectsInterface_hasSideEffect h2 s2 = Inr r)"
    by simp
  with reachable_main_store instance_main_store(2) c show ?thesis by (intro conjI)
qed

subsection \<open>Success of the cast is static\<close>

text \<open>
  Claim C7. For two live instances \<open>x\<close> and \<open>y\<close> of the same class \<open>D\<close>, in any two reachable
  stores (that is, whatever their data members hold and whatever was called before), the
  cast of \<open>x\<close> to \<open>I\<close> returns a handle if and only if the cast of \<open>y\<close> does; and that is
  decided by the trait list of \<open>D\<close> alone.
\<close>

theorem cast_success_is_static:
  assumes "reachable s1" and "reachable s2" and "instance_of s1 x D" and "instance_of s2 y D"
  shows "((\<exists>h. fst (cast_to_interface I D x s1) = Inr h) \<longleftrightarrow>
          (\<exists>h. fst (cast_to_interface I D y s2) = Inr h)) \<and>
         ((\<exists>h. fst (cast_to_interface I D x s1) = Inr h) \<longleftrightarrow> count_list (Traits D) I = 1)"
  using cast_success_iff [OF reachable_wf [OF assms(1)] assms(3), of I]
    cast_success_iff [OF reachable_wf [OF assms(2)] assms(4), of I]
  by blast

theorem cast_success_is_static_witness:
  "reachable main_store \<and> reachable later_store \<and> instance_of main_store (Ptr 0) AddOp \<and>
   instance_of later_store (Ptr 7) AddOp \<and>
   ((\<exists>h. fst (cast_to_interface SideEffectsInterface AddOp (Ptr 0) main_store) = Inr h) \<longleftrightarrow>
    (\<exists>h. fst (cast_to_interface SideEffectsInterface AddOp (Ptr 7) later_store) = Inr h)) \<and>
   ((\<exists>h. fst (cast_to_interface SideEffectsInterface AddOp (Ptr 0) main_store) = Inr h) \<longleftrightarrow>
    count_list (Traits (AddOp :: unit class_decl)) SideEffectsInterface = 1)"
  using cast_success_is_static [OF reachable_main_store reachable_later_store
      instance_main_store(1) instance_later_store, of SideEffectsInterface]
    reachable_main_store reachable_later_store instance_main_store(1) instance_later_store
  by blast

subsection \<open>When the slots are filled\<close>




subsection \<open>The handle of a cast has a Concept\<close>

text \<open>
  Claim C9. For a live instance of a class that declares \<open>I\<close>, in a reachable store, the
  cast returns a handle; and the Concept pointer of any handle the cast returns is not null
  and points to a live Model, so that \<^verbatim>\<open>hasSideEffect()\<close> through the handle returns a result
  instead of dereferencing a null pointer.
\<close>

theorem cast_handle_concept_not_null:
  assumes "reachable s" and "instance_of s p D"
  shows "(count_list (Traits D) I = 1 \<longrightarrow> (\<exists>h. fst (cast_to_interface I D p s) = Inr h)) \<and>
         (fst (cast_to_interface I D p s) = Inr h \<longrightarrow>
            vconcept h \<noteq> nullptr \<and> (\<exists>a m. vconcept h = Ptr a \<and> heap s a = Some m) \<and>
            (I = SideEffectsInterface \<longrightarrow> (\<exists>r. SideEffectsInterface_hasSideEffect h s = Inr r)))"
proof (rule conjI)
  note wf = reachable_wf [OF assms(1)]
  show "count_list (Traits D) I = 1 \<longrightarrow> (\<exists>h. fst (cast_to_interface I D p s) = Inr h)"
    using cast_success_iff [OF wf assms(2), of I] by blast
  show "fst (cast_to_interface I D p s) = Inr h \<longrightarrow>
            vconcept h \<noteq> nullptr \<and> (\<exists>a m. vconcept h = Ptr a \<and> heap s a = Some m) \<and>
            (I = SideEffectsInterface \<longrightarrow> (\<exists>r. SideEffectsInterface_hasSideEffect h s = Inr r))"
  proof
    assume ok: "fst (cast_to_interface I D p s) = Inr h"
    then have "count_list (Traits D) I = 1"
      using cast_success_iff [OF wf assms(2), of I] by blast
    from cast_ok [OF wf assms(2) this] obtain a where
      a: "cast_to_interface I D p s = (Inr \<lparr>entity = p, vconcept = Ptr a\<rparr>, s)"
      "heap s a = Some \<lparr>Model_Traits = I, ConcreteOp = D\<rparr>" by blast
    from ok a(1) have h: "h = \<lparr>entity = p, vconcept = Ptr a\<rparr>" by simp
    have "\<exists>r. SideEffectsInterface_hasSideEffect h s = Inr r" if "I = SideEffectsInterface"
      using handle_forwards [of s a D p] a(2) that call_returns [OF assms(2), of "base_offset D"]
      unfolding h by simp
    with h a(2) show "vconcept h \<noteq> nullptr \<and> (\<exists>a m. vconcept h = Ptr a \<and> heap s a = Some m) \<and>
            (I = SideEffectsInterface \<longrightarrow> (\<exists>r. SideEffectsInterface_hasSideEffect h s = Inr r))"
      by simp
  qed
qed

theorem cast_handle_concept_not_null_witness:
  "reachable main_store \<and> instance_of main_store (Ptr 2) LoadOp \<and>
   count_list (Traits (LoadOp :: unit class_decl)) SideEffectsInterface = 1 \<and>
   fst (cast_to_interface SideEffectsInterface LoadOp (Ptr 2) main_store) =
     Inr \<lparr>entity = Ptr 2, vconcept = Ptr 2\<rparr> \<and>
   vconcept \<lparr>entity = Ptr 2, vconcept = Ptr 2\<rparr> \<noteq> nullptr \<and>
   (\<exists>r. SideEffectsInterface_hasSideEffect \<lparr>entity = Ptr 2, vconcept = Ptr 2\<rparr> main_store = Inr r)"
proof -
  have c: "count_list (Traits (LoadOp :: unit class_decl)) SideEffectsInterface = 1"
    by (simp add: LoadOp_def)
  have k: "fst (cast_to_interface SideEffectsInterface LoadOp (Ptr 2) main_store) =
     Inr \<lparr>entity = Ptr 2, vconcept = Ptr 2\<rparr>"
    by (simp add: cast_main_store_LoadOp)
  from cast_handle_concept_not_null [OF reachable_main_store instance_main_store(3),
      of SideEffectsInterface "\<lparr>entity = Ptr 2, vconcept = Ptr 2\<rparr>"] k
  have "vconcept \<lparr>entity = Ptr 2, vconcept = Ptr 2\<rparr> \<noteq> nullptr \<and>
    (\<exists>r. SideEffectsInterface_hasSideEffect \<lparr>entity = Ptr 2, vconcept = Ptr 2\<rparr> main_store = Inr r)"
    by blast
  with reachable_main_store instance_main_store(3) c k show ?thesis by (intro conjI) simp_all
qed

subsection \<open>Wrappers with an empty pointer\<close>

text \<open>
  Claim C10. \<^verbatim>\<open>Drawable::draw()\<close> and \<^verbatim>\<open>Animal::makeNoise()\<close> on a wrapper whose \<^verbatim>\<open>pImpl\<close> is
  empty return without writing anything, and for no state of the wrapper do they
  dereference an empty pointer.
\<close>

theorem null_wrapper_call_is_noop:
  "Drawable_draw T_draw \<lparr>Drawable_pImpl = None\<rparr> out = Inr out \<and>
   Animal_makeNoise A_makeNoise \<lparr>Animal_pImpl = None\<rparr> out = Inr out \<and>
   Drawable_draw T_draw d out \<noteq> Inl undefined_behaviour \<and>
   Animal_makeNoise A_makeNoise a out \<noteq> Inl undefined_behaviour"
  by (simp add: Drawable_draw_def Animal_makeNoise_def unique_ptr_draw_def
      unique_ptr_makeNoise_def split: option.splits)

end
